theory Spec2Isabelle
  imports Main
begin

section \<open>Data model (src/types.ts)\<close>

text \<open>
  The enums of the source are datatypes. A JavaScript \<^verbatim>\<open>number\<close> that the engine
  compares (seconds, counters, targets, limits) is an \<^typ>\<open>int\<close>; an optional field
  \<^verbatim>\<open>f?: T\<close> is a \<^typ>\<open>'a option\<close>, with \<^const>\<open>None\<close> for a field that is absent or
  \<^verbatim>\<open>undefined\<close> (the engine never tells the two apart, and \<^verbatim>\<open>cloneTask\<close> drops
  \<^verbatim>\<open>undefined\<close> fields). \<^verbatim>\<open>customData\<close> is a payload the engine carries and never
  reads. An \<^typ>\<open>int\<close> stands for a double that holds that integer exactly. The functions
  modelled here only compare numbers; \<^verbatim>\<open>tickTask\<close>, which adds to the clock, is not
  modelled.
\<close>

datatype taskStatus = IDLE | RUNNING | PAUSED | COMPLETED | FAILED | CANCELLED | LOCKED

datatype requirementType = BOOLEAN | NUMERIC | GROUP

type_synonym customData = "(string \<times> string) list"

text \<open>
  \<^verbatim>\<open>interface Requirement\<close>: the scalar fields are a record, and the node ties the
  recursion through \<^verbatim>\<open>children?: Requirement[]\<close>.
\<close>

record reqFields =
  req_id :: string
  req_type :: requirementType
  req_title :: string
  req_description :: "string option"
  isOptional :: "bool option"
  xorGroup :: "string option"
  currentValue :: "int option"
  targetValue :: "int option"
  isFulfilled :: bool
  isDisabled :: "bool option"
  valueLimit :: "int option"
  req_customData :: "customData option"

datatype requirement =
  Requirement (fieldsOf: reqFields) (children: "requirement list option")

record task =
  task_id :: string
  task_title :: string
  task_description :: string
  status :: taskStatus
  requirements :: "requirement list"
  timeLimit :: "int option"
  elapsedTime :: int
  createdAt :: int
  updatedAt :: int
  isLocked :: "bool option"
  task_customData :: "customData option"

section \<open>JavaScript truthiness of the optional fields the engine tests\<close>

text \<open>\<^verbatim>\<open>if (req.xorGroup)\<close>: a string is truthy when it is present and not empty.\<close>

definition truthyString :: "string option \<Rightarrow> bool" where
  "truthyString s = (case s of None \<Rightarrow> False | Some g \<Rightarrow> g \<noteq> [])"

text \<open>\<^verbatim>\<open>if (req.isDisabled)\<close>, \<^verbatim>\<open>!c.isOptional\<close>: an optional boolean is truthy when it is \<^verbatim>\<open>true\<close>.\<close>

definition truthyBool :: "bool option \<Rightarrow> bool" where
  "truthyBool b = (case b of None \<Rightarrow> False | Some v \<Rightarrow> v)"

text \<open>\<^verbatim>\<open>a ?? d\<close>\<close>

definition nullish :: "'a option \<Rightarrow> 'a \<Rightarrow> 'a" where
  "nullish a d = (case a of None \<Rightarrow> d | Some v \<Rightarrow> v)"

section \<open>The requirement evaluator (src/services/taskEngine.ts, evaluateRequirement)\<close>

text \<open>
  The predicate of \<^verbatim>\<open>allSiblings.find\<close>:
  \<^verbatim>\<open>s.id !== req.id && s.xorGroup === req.xorGroup && s.isFulfilled\<close>.
\<close>

definition isXorWinner :: "reqFields \<Rightarrow> requirement \<Rightarrow> bool" where
  "isXorWinner f s \<longleftrightarrow>
     req_id (fieldsOf s) \<noteq> req_id f \<and> xorGroup (fieldsOf s) = xorGroup f \<and> isFulfilled (fieldsOf s)"

definition xorWinner :: "reqFields \<Rightarrow> requirement list \<Rightarrow> requirement option" where
  "xorWinner f allSiblings = List.find (isXorWinner f) allSiblings"

text \<open>The NUMERIC branch, on the fields left by the XOR step.\<close>

definition evaluateNumeric :: "reqFields \<Rightarrow> reqFields" where
  "evaluateNumeric f =
     (let current = nullish (currentValue f) 0;
          target = nullish (targetValue f) 1;
          f1 = f\<lparr>isFulfilled := (current \<ge> target)\<rparr>
      in case valueLimit f of
           None \<Rightarrow> f1
         | Some limit \<Rightarrow>
             if current > limit then f1\<lparr>isFulfilled := False, isDisabled := Some True\<rparr> else f1)"

text \<open>
  \<^verbatim>\<open>relevantChildren = children.filter(c => !c.isOptional)\<close>, then the length test and
  \<^verbatim>\<open>every(c => c.isFulfilled)\<close>.
\<close>

definition groupFulfilled :: "requirement list \<Rightarrow> bool" where
  "groupFulfilled cs =
     (let relevantChildren = filter (\<lambda>c. \<not> truthyBool (isOptional (fieldsOf c))) cs
      in if length relevantChildren = 0 then True
         else list_all (\<lambda>c. isFulfilled (fieldsOf c)) relevantChildren)"

text \<open>
  \<^verbatim>\<open>evaluateRequirement\<close> mutates its argument and returns it, and
  \<^verbatim>\<open>xs.map(r => evaluateRequirement(r, xs))\<close> passes the array that holds these very
  objects. So when the element at position \<open>i\<close> is evaluated, the sibling array holds the
  elements before \<open>i\<close> as already evaluated and the elements from \<open>i\<close> on as they came in.
  \<open>evaluateSiblings done todo\<close> is this loop: \<open>done\<close> the evaluated prefix, \<open>todo\<close> the rest.
\<close>

function evaluateRequirement :: "requirement \<Rightarrow> requirement list \<Rightarrow> requirement"
  and evaluateSiblings :: "requirement list \<Rightarrow> requirement list \<Rightarrow> requirement list" where
  "evaluateRequirement (Requirement f ch) allSiblings =
     (if truthyString (xorGroup f) \<and> xorWinner f allSiblings \<noteq> None
      then Requirement (f\<lparr>isDisabled := Some True, isFulfilled := False\<rparr>) ch
      else
        let f1 = (if truthyString (xorGroup f) then f\<lparr>isDisabled := Some False\<rparr> else f)
        in case req_type f1 of
             BOOLEAN \<Rightarrow> Requirement f1 ch
           | NUMERIC \<Rightarrow> Requirement (evaluateNumeric f1) ch
           | GROUP \<Rightarrow>
               (case ch of
                  None \<Rightarrow> Requirement (f1\<lparr>isFulfilled := True\<rparr>) ch
                | Some [] \<Rightarrow> Requirement (f1\<lparr>isFulfilled := True\<rparr>) ch
                | Some (c # cs) \<Rightarrow>
                    let ch' = evaluateSiblings [] (c # cs)
                    in Requirement (f1\<lparr>isFulfilled := groupFulfilled ch'\<rparr>) (Some ch')))"
| "evaluateSiblings done [] = done"
| "evaluateSiblings done (r # rest) =
     evaluateSiblings (done @ [evaluateRequirement r (done @ r # rest)]) rest"
  by pat_completeness auto
termination
  by (relation "measure (\<lambda>x. case x of Inl (r, _) \<Rightarrow> 2 * size r
                                    | Inr (_, todo) \<Rightarrow> 2 * size_list size todo + 1)")
     auto

section \<open>The task evaluator (evaluateTaskState)\<close>

text \<open>
  \<^verbatim>\<open>cloneTask\<close> is \<^verbatim>\<open>JSON.parse(JSON.stringify(task))\<close>: on immutable values it is the
  identity. \<^verbatim>\<open>Date.now()\<close> is the parameter \<open>now\<close>.
\<close>

definition cloneTask :: "task \<Rightarrow> task" where
  "cloneTask t = t"

text \<open>\<^verbatim>\<open>newTask.timeLimit && newTask.elapsedTime >= newTask.timeLimit\<close>: zero is falsy.\<close>

definition timeLimitReached :: "task \<Rightarrow> bool" where
  "timeLimitReached t =
     (case timeLimit t of None \<Rightarrow> False | Some l \<Rightarrow> l \<noteq> 0 \<and> elapsedTime t \<ge> l)"

definition evaluateTaskState :: "int \<Rightarrow> task \<Rightarrow> task" where
  "evaluateTaskState now t =
     (let newTask = cloneTask t;
          newTask1 = (if timeLimitReached newTask \<and> status newTask = RUNNING
                      then newTask\<lparr>status := FAILED\<rparr> else newTask)
      in if status newTask1 = IDLE \<or> status newTask1 = LOCKED then newTask1
         else
           let newTask2 = newTask1\<lparr>requirements := evaluateSiblings [] (requirements newTask1)\<rparr>;
               relevantRequirements =
                 filter (\<lambda>r. \<not> truthyBool (isOptional (fieldsOf r))) (requirements newTask2);
               allFulfilled = list_all (\<lambda>r. isFulfilled (fieldsOf r)) relevantRequirements;
               newTask3 = (if allFulfilled \<and> status newTask2 = RUNNING
                           then newTask2\<lparr>status := COMPLETED\<rparr> else newTask2)
           in newTask3\<lparr>updatedAt := now\<rparr>)"

section \<open>Task control operations\<close>

text \<open>
  \<^verbatim>\<open>Partial<Requirement>\<close>: every key may be missing (\<^const>\<open>None\<close>). For an optional
  field of \<^verbatim>\<open>Requirement\<close> a key that is present may hold \<^verbatim>\<open>undefined\<close>
  (\<open>Some None\<close>), which the spread \<^verbatim>\<open>{ ...req, ...updates }\<close> writes over the field.
\<close>

record partialRequirement =
  upd_id :: "string option"
  upd_type :: "requirementType option"
  upd_title :: "string option"
  upd_description :: "string option option"
  upd_isOptional :: "bool option option"
  upd_xorGroup :: "string option option"
  upd_currentValue :: "int option option"
  upd_targetValue :: "int option option"
  upd_children :: "requirement list option option"
  upd_isFulfilled :: "bool option"
  upd_isDisabled :: "bool option option"
  upd_valueLimit :: "int option option"
  upd_customData :: "customData option option"

text \<open>\<^verbatim>\<open>{ ...req, ...updates }\<close>\<close>

definition spreadUpdates :: "requirement \<Rightarrow> partialRequirement \<Rightarrow> requirement" where
  "spreadUpdates req updates =
     Requirement
       \<lparr> req_id = nullish (upd_id updates) (req_id (fieldsOf req)),
         req_type = nullish (upd_type updates) (req_type (fieldsOf req)),
         req_title = nullish (upd_title updates) (req_title (fieldsOf req)),
         req_description = nullish (upd_description updates) (req_description (fieldsOf req)),
         isOptional = nullish (upd_isOptional updates) (isOptional (fieldsOf req)),
         xorGroup = nullish (upd_xorGroup updates) (xorGroup (fieldsOf req)),
         currentValue = nullish (upd_currentValue updates) (currentValue (fieldsOf req)),
         targetValue = nullish (upd_targetValue updates) (targetValue (fieldsOf req)),
         isFulfilled = nullish (upd_isFulfilled updates) (isFulfilled (fieldsOf req)),
         isDisabled = nullish (upd_isDisabled updates) (isDisabled (fieldsOf req)),
         valueLimit = nullish (upd_valueLimit updates) (valueLimit (fieldsOf req)),
         req_customData = nullish (upd_customData updates) (req_customData (fieldsOf req)) \<rparr>
       (nullish (upd_children updates) (children req))"

text \<open>
  The callback of \<^verbatim>\<open>reqs.map\<close> in \<^verbatim>\<open>recursiveUpdate\<close>; \<^verbatim>\<open>if (req.children)\<close> holds for
  every array, the empty one too.
\<close>

fun recursiveUpdateNode :: "string \<Rightarrow> partialRequirement \<Rightarrow> requirement \<Rightarrow> requirement" where
  "recursiveUpdateNode reqId updates (Requirement f ch) =
     (if req_id f = reqId then
        (let updatedReq = spreadUpdates (Requirement f ch) updates
         in if truthyBool (isDisabled f) then Requirement f ch else updatedReq)
      else case ch of
             Some cs \<Rightarrow> Requirement f (Some (map (recursiveUpdateNode reqId updates) cs))
           | None \<Rightarrow> Requirement f ch)"

definition recursiveUpdate :: "string \<Rightarrow> partialRequirement \<Rightarrow> requirement list \<Rightarrow> requirement list" where
  "recursiveUpdate reqId updates reqs = map (recursiveUpdateNode reqId updates) reqs"

definition updateRequirementValue :: "int \<Rightarrow> task \<Rightarrow> string \<Rightarrow> partialRequirement \<Rightarrow> task" where
  "updateRequirementValue now t reqId updates =
     (if status t \<noteq> RUNNING \<and> status t \<noteq> PAUSED then t
      else
        let newTask = cloneTask t;
            newTask1 = newTask\<lparr>requirements := recursiveUpdate reqId updates (requirements newTask)\<rparr>
        in evaluateTaskState now newTask1)"

definition startTask :: "int \<Rightarrow> task \<Rightarrow> task" where
  "startTask now t =
     (if status t = IDLE \<or> status t = PAUSED then evaluateTaskState now (t\<lparr>status := RUNNING\<rparr>)
      else t)"

definition pauseTask :: "task \<Rightarrow> task" where
  "pauseTask t = (if status t = RUNNING then t\<lparr>status := PAUSED\<rparr> else t)"

text \<open>The callback of \<^verbatim>\<open>reqs.map\<close> in \<^verbatim>\<open>recursiveReset\<close>.\<close>

fun recursiveResetNode :: "requirement \<Rightarrow> requirement" where
  "recursiveResetNode (Requirement f ch) =
     Requirement
       (f\<lparr> isFulfilled := False,
           isDisabled := Some False,
           currentValue := (if req_type f = NUMERIC then Some 0 else None) \<rparr>)
       (case ch of Some cs \<Rightarrow> Some (map recursiveResetNode cs) | None \<Rightarrow> None)"

definition recursiveReset :: "requirement list \<Rightarrow> requirement list" where
  "recursiveReset reqs = map recursiveResetNode reqs"

definition resetTask :: "int \<Rightarrow> task \<Rightarrow> task" where
  "resetTask now t =
     t\<lparr> status := IDLE,
        elapsedTime := 0,
        requirements := recursiveReset (requirements t),
        updatedAt := now \<rparr>"

section \<open>Walking a requirement tree\<close>

text \<open>Every node of a tree, the root first; every node of a forest.\<close>

fun nodes :: "requirement \<Rightarrow> requirement list" where
  "nodes (Requirement f ch) =
     Requirement f ch # (case ch of Some cs \<Rightarrow> concat (map nodes cs) | None \<Rightarrow> [])"

definition allNodes :: "requirement list \<Rightarrow> requirement list" where
  "allNodes reqs = concat (map nodes reqs)"

section \<open>Conditions and predicates used by the properties\<close>

text \<open>
  The node loses XOR resolution: the test of the first branch of \<^verbatim>\<open>evaluateRequirement\<close>
  (\<^verbatim>\<open>req.xorGroup\<close> truthy and \<^verbatim>\<open>xorWinner\<close> found).
\<close>

definition lostXor :: "requirement \<Rightarrow> requirement list \<Rightarrow> bool" where
  "lostXor r allSiblings \<longleftrightarrow>
     truthyString (xorGroup (fieldsOf r)) \<and> xorWinner (fieldsOf r) allSiblings \<noteq> None"

text \<open>\<^verbatim>\<open>req.valueLimit !== undefined && current > req.valueLimit\<close>\<close>

definition overLimit :: "reqFields \<Rightarrow> bool" where
  "overLimit f =
     (case valueLimit f of None \<Rightarrow> False | Some limit \<Rightarrow> nullish (currentValue f) 0 > limit)"

text \<open>
  Two siblings clash when they are two nodes by id, carry the same non-empty
  \<^verbatim>\<open>xorGroup\<close> and are both fulfilled. A sibling list is XOR-exclusive when no two of its
  members clash.
\<close>

definition xorClash :: "requirement \<Rightarrow> requirement \<Rightarrow> bool" where
  "xorClash a b \<longleftrightarrow>
     req_id (fieldsOf a) \<noteq> req_id (fieldsOf b) \<and>
     truthyString (xorGroup (fieldsOf a)) \<and> xorGroup (fieldsOf a) = xorGroup (fieldsOf b) \<and>
     isFulfilled (fieldsOf a) \<and> isFulfilled (fieldsOf b)"

definition xorExclusive :: "requirement list \<Rightarrow> bool" where
  "xorExclusive rs \<longleftrightarrow> (\<forall>a\<in>set rs. \<forall>b\<in>set rs. \<not> xorClash a b)"

text \<open>
  Exclusivity below a node of an evaluated tree, along the levels the pass walks: the
  children of a GROUP that did not lose XOR resolution. In the result of a pass, a GROUP
  that lost is one with a non-empty \<^verbatim>\<open>xorGroup\<close> and \<^verbatim>\<open>isDisabled\<close> true.
\<close>

fun xorExclusiveDeep :: "requirement \<Rightarrow> bool" where
  "xorExclusiveDeep (Requirement f ch) =
     (case ch of
        None \<Rightarrow> True
      | Some cs \<Rightarrow>
          if req_type f = GROUP \<and> \<not> (truthyString (xorGroup f) \<and> truthyBool (isDisabled f))
          then xorExclusive cs \<and> (\<forall>c\<in>set cs. xorExclusiveDeep c)
          else True)"

text \<open>\<^verbatim>\<open>current >= target\<close> with the defaults of the NUMERIC branch.\<close>

definition meetsTarget :: "reqFields \<Rightarrow> bool" where
  "meetsTarget f \<longleftrightarrow> nullish (currentValue f) 0 \<ge> nullish (targetValue f) 1"

text \<open>
  What a pass makes of a node it evaluates, as a relation between the node that came in
  (\<open>f\<close>, \<open>ch\<close>) and the node returned (\<open>f'\<close>, \<open>ch'\<close>):
  \<^item> only \<^verbatim>\<open>isFulfilled\<close> and \<^verbatim>\<open>isDisabled\<close> may differ;
  \<^item> the returned node is not both disabled and fulfilled, unless it has no (or an empty)
    \<^verbatim>\<open>xorGroup\<close> and came in marked disabled;
  \<^item> with a non-empty \<^verbatim>\<open>xorGroup\<close> the returned \<^verbatim>\<open>isDisabled\<close> is set;
  \<^item> a BOOLEAN node is fulfilled only if it came in fulfilled; a NUMERIC node is fulfilled
    only if it meets its target within its limit, and exactly when it meets its target if it
    comes out not disabled; the children of both are returned as they came;
  \<^item> a GROUP that lost XOR resolution (in a returned node: non-empty \<^verbatim>\<open>xorGroup\<close> and
    \<^verbatim>\<open>isDisabled\<close> true) is unfulfilled and its children are returned as they came; any
    other GROUP has each child related to its returned child in the same way, position by
    position, and is fulfilled iff every returned child not marked optional is.
\<close>

fun passDerives :: "requirement \<Rightarrow> requirement \<Rightarrow> bool"
  and passDerivesChildren :: "requirement list option \<Rightarrow> requirement list option \<Rightarrow> bool"
  and passDerivesAll :: "requirement list \<Rightarrow> requirement list \<Rightarrow> bool" where
  "passDerives (Requirement f ch) (Requirement f' ch') \<longleftrightarrow>
     f' = f\<lparr>isFulfilled := isFulfilled f', isDisabled := isDisabled f'\<rparr> \<and>
     (truthyString (xorGroup f) \<or> \<not> truthyBool (isDisabled f)
        \<longrightarrow> \<not> (truthyBool (isDisabled f') \<and> isFulfilled f')) \<and>
     (truthyString (xorGroup f) \<longrightarrow> isDisabled f' \<noteq> None) \<and>
     (case req_type f of
        BOOLEAN \<Rightarrow> (isFulfilled f' \<longrightarrow> isFulfilled f) \<and> ch' = ch
      | NUMERIC \<Rightarrow>
          (isFulfilled f' \<longrightarrow> meetsTarget f \<and> \<not> overLimit f) \<and>
          (\<not> truthyBool (isDisabled f') \<longrightarrow> isFulfilled f' = meetsTarget f) \<and> ch' = ch
      | GROUP \<Rightarrow>
          if truthyString (xorGroup f') \<and> truthyBool (isDisabled f')
          then \<not> isFulfilled f' \<and> ch' = ch
          else passDerivesChildren ch ch' \<and> isFulfilled f' = groupFulfilled (nullish ch' []))"
| "passDerivesChildren None None \<longleftrightarrow> True"
| "passDerivesChildren (Some cs) (Some cs') \<longleftrightarrow> passDerivesAll cs cs'"
| "passDerivesChildren None (Some cs') \<longleftrightarrow> False"
| "passDerivesChildren (Some cs) None \<longleftrightarrow> False"
| "passDerivesAll [] [] \<longleftrightarrow> True"
| "passDerivesAll (r # rs) (r' # rs') \<longleftrightarrow> passDerives r r' \<and> passDerivesAll rs rs'"
| "passDerivesAll [] (r' # rs') \<longleftrightarrow> False"
| "passDerivesAll (r # rs) [] \<longleftrightarrow> False"



text \<open>No node of the tree carries a non-empty \<^verbatim>\<open>xorGroup\<close>.\<close>

definition xorFree :: "requirement \<Rightarrow> bool" where
  "xorFree r \<longleftrightarrow> (\<forall>n\<in>set (nodes r). \<not> truthyString (xorGroup (fieldsOf n)))"

section \<open>Sample data\<close>

text \<open>A requirement and a task with every optional field absent, as a literal would give.\<close>

definition newFields :: "string \<Rightarrow> requirementType \<Rightarrow> reqFields" where
  "newFields ident ty =
     \<lparr> req_id = ident, req_type = ty, req_title = [], req_description = None,
       isOptional = None, xorGroup = None, currentValue = None, targetValue = None,
       isFulfilled = False, isDisabled = None, valueLimit = None, req_customData = None \<rparr>"

definition newTask :: "taskStatus \<Rightarrow> requirement list \<Rightarrow> task" where
  "newTask st reqs =
     \<lparr> task_id = ''1'', task_title = [], task_description = [], status = st,
       requirements = reqs, timeLimit = None, elapsedTime = 0, createdAt = 0, updatedAt = 0,
       isLocked = None, task_customData = None \<rparr>"

text \<open>Two BOOLEAN options of the XOR group \<open>cardio\<close>, the first one done.\<close>

definition runDone :: requirement where
  "runDone = Requirement ((newFields ''run'' BOOLEAN)\<lparr>xorGroup := Some ''cardio'', isFulfilled := True\<rparr>) None"

definition swimOpen :: requirement where
  "swimOpen = Requirement ((newFields ''swim'' BOOLEAN)\<lparr>xorGroup := Some ''cardio''\<rparr>) None"

definition swimLocked :: requirement where
  "swimLocked =
     Requirement ((newFields ''swim'' BOOLEAN)\<lparr>xorGroup := Some ''cardio'', isDisabled := Some True\<rparr>) None"

definition coolDown :: requirement where
  "coolDown = Requirement ((newFields ''cool'' BOOLEAN)\<lparr>isOptional := Some True\<rparr>) None"

text \<open>A counter over its ceiling (limit 5, value 6), and one that has reached its target.\<close>

definition overCounter :: requirement where
  "overCounter =
     Requirement ((newFields ''reps'' NUMERIC)
       \<lparr>currentValue := Some 6, targetValue := Some 3, valueLimit := Some 5\<rparr>) None"

definition pushups :: requirement where
  "pushups =
     Requirement ((newFields ''c1'' NUMERIC)
       \<lparr>currentValue := Some 20, targetValue := Some 20, isFulfilled := True\<rparr>) None"

definition cardioGroup :: requirement where
  "cardioGroup = Requirement (newFields ''cardio'' GROUP) (Some [runDone, swimOpen, coolDown])"

definition workout :: requirement where
  "workout =
     Requirement ((newFields ''core'' GROUP)\<lparr>isFulfilled := True\<rparr>)
       (Some [pushups, Requirement ((newFields ''inner'' GROUP)\<lparr>isFulfilled := True\<rparr>) (Some [runDone, swimLocked])])"

definition timedOutTask :: "taskStatus \<Rightarrow> task" where
  "timedOutTask st = (newTask st [pushups])\<lparr>timeLimit := Some 60, elapsedTime := 61\<rparr>"

definition unboundedTask :: task where
  "unboundedTask = (newTask RUNNING [swimOpen])\<lparr>timeLimit := Some 0, elapsedTime := 100\<rparr>"

definition toggleFulfilled :: partialRequirement where
  "toggleFulfilled =
     \<lparr> upd_id = None, upd_type = None, upd_title = None, upd_description = None,
       upd_isOptional = None, upd_xorGroup = None, upd_currentValue = None,
       upd_targetValue = None, upd_children = None, upd_isFulfilled = Some True,
       upd_isDisabled = None, upd_valueLimit = None, upd_customData = None \<rparr>"

text \<open>Two options of the XOR group \<open>legs\<close>, both done, below a GROUP of the XOR group \<open>cardio\<close>.\<close>

definition bikeDone :: requirement where
  "bikeDone = Requirement ((newFields ''bike'' BOOLEAN)\<lparr>xorGroup := Some ''legs'', isFulfilled := True\<rparr>) None"

definition rowDone :: requirement where
  "rowDone = Requirement ((newFields ''row'' BOOLEAN)\<lparr>xorGroup := Some ''legs'', isFulfilled := True\<rparr>) None"

definition gymGroup :: requirement where
  "gymGroup = Requirement ((newFields ''gym'' GROUP)\<lparr>xorGroup := Some ''cardio''\<rparr>) (Some [bikeDone, rowDone])"

text \<open>The same GROUP with one child that comes in both disabled and fulfilled.\<close>

definition staleChild :: requirement where
  "staleChild =
     Requirement ((newFields ''bike'' BOOLEAN)
       \<lparr>xorGroup := Some ''legs'', isFulfilled := True, isDisabled := Some True\<rparr>) None"

definition staleGroup :: requirement where
  "staleGroup = Requirement ((newFields ''gym'' GROUP)\<lparr>xorGroup := Some ''cardio''\<rparr>) (Some [staleChild])"

text \<open>The option \<open>run\<close> coming in both disabled and fulfilled.\<close>

definition runStale :: requirement where
  "runStale =
     Requirement ((newFields ''run'' BOOLEAN)
       \<lparr>xorGroup := Some ''cardio'', isFulfilled := True, isDisabled := Some True\<rparr>) None"

text \<open>A counter of the XOR group \<open>cardio\<close> that has reached its target but is not yet marked.\<close>

definition laps :: requirement where
  "laps =
     Requirement ((newFields ''laps'' NUMERIC)
       \<lparr>xorGroup := Some ''cardio'', currentValue := Some 1, targetValue := Some 1\<rparr>) None"

text \<open>
  \<open>overCounter\<close> after a pass (disabled by its breach), with the value then put back to 3,
  under the limit of 5.
\<close>

definition backUnderLimit :: requirement where
  "backUnderLimit =
     Requirement ((newFields ''reps'' NUMERIC)
       \<lparr>currentValue := Some 3, targetValue := Some 3, valueLimit := Some 5, isDisabled := Some True\<rparr>) None"

text \<open>The counter before its last increment, and the update that makes the increment.\<close>

definition lapsStart :: requirement where
  "lapsStart =
     Requirement ((newFields ''laps'' NUMERIC)
       \<lparr>xorGroup := Some ''cardio'', currentValue := Some 0, targetValue := Some 1\<rparr>) None"

definition incrementToOne :: partialRequirement where
  "incrementToOne =
     \<lparr> upd_id = None, upd_type = None, upd_title = None, upd_description = None,
       upd_isOptional = None, upd_xorGroup = None, upd_currentValue = Some (Some 1),
       upd_targetValue = None, upd_children = None, upd_isFulfilled = None,
       upd_isDisabled = None, upd_valueLimit = None, upd_customData = None \<rparr>"

text \<open>Two options whose \<^verbatim>\<open>xorGroup\<close> is the empty string, and a second node with the id of \<open>runDone\<close>.\<close>

definition unlabelledA :: requirement where
  "unlabelledA = Requirement ((newFields ''a'' BOOLEAN)\<lparr>xorGroup := Some [], isFulfilled := True\<rparr>) None"

definition unlabelledB :: requirement where
  "unlabelledB = Requirement ((newFields ''b'' BOOLEAN)\<lparr>xorGroup := Some [], isFulfilled := True\<rparr>) None"

definition runAgain :: requirement where
  "runAgain = Requirement ((newFields ''run'' BOOLEAN)\<lparr>xorGroup := Some ''cardio'', isFulfilled := True\<rparr>) None"

section \<open>The sibling walk\<close>

lemma evaluateSiblings_decomp:
  "\<exists>ys. evaluateSiblings done todo = done @ ys \<and> length ys = length todo"
proof (induction todo arbitrary: "done")
  case Nil
  then show ?case by simp
next
  case (Cons r rest)
  obtain ys where ys:
    "evaluateSiblings (done @ [evaluateRequirement r (done @ r # rest)]) rest
       = (done @ [evaluateRequirement r (done @ r # rest)]) @ ys"
    "length ys = length rest"
    using Cons.IH by blast
  then show ?case by simp
qed

lemma evaluateSiblings_length:
  "length (evaluateSiblings done todo) = length done + length todo"
  using evaluateSiblings_decomp[of "done" todo] by auto

text \<open>
  The element at position \<open>i\<close> is evaluated against the array as it stands at that moment:
  the results before \<open>i\<close>, the inputs from \<open>i\<close> on.
\<close>

lemma evaluateSiblings_nth:
  "i < length todo \<Longrightarrow>
   evaluateSiblings done todo ! (length done + i) =
     evaluateRequirement (todo ! i)
       (take (length done + i) (evaluateSiblings done todo) @ drop i todo)"
proof (induction todo arbitrary: "done" i)
  case Nil
  then show ?case by simp
next
  case (Cons r rest)
  let ?r' = "evaluateRequirement r (done @ r # rest)"
  show ?case
  proof (cases i)
    case 0
    obtain ys where ys: "evaluateSiblings (done @ [?r']) rest = (done @ [?r']) @ ys"
      using evaluateSiblings_decomp by blast
    show ?thesis using 0 by (simp add: ys nth_append)
  next
    case (Suc k)
    then have k: "k < length rest" using Cons.prems by simp
    show ?thesis using Cons.IH[OF k, of "done @ [?r']"] Suc by simp
  qed
qed

lemma groupFulfilled_iff:
  "groupFulfilled cs \<longleftrightarrow>
     (\<forall>c\<in>set cs. \<not> truthyBool (isOptional (fieldsOf c)) \<longrightarrow> isFulfilled (fieldsOf c))"
  by (auto simp: groupFulfilled_def Let_def list_all_iff filter_empty_conv)

lemma recursiveResetNode_nodes:
  "n \<in> set (nodes (recursiveResetNode r)) \<Longrightarrow>
     \<not> isFulfilled (fieldsOf n) \<and> isDisabled (fieldsOf n) = Some False \<and>
     currentValue (fieldsOf n) = (if req_type (fieldsOf n) = NUMERIC then Some 0 else None)"
proof (induction r arbitrary: n rule: recursiveResetNode.induct)
  case (1 f ch)
  then show ?case by (cases ch) auto
qed

lemma recursiveResetNode_shape:
  "map (\<lambda>n. (req_id (fieldsOf n), req_type (fieldsOf n))) (nodes (recursiveResetNode r)) =
   map (\<lambda>n. (req_id (fieldsOf n), req_type (fieldsOf n))) (nodes r)"
proof (induction r rule: recursiveResetNode.induct)
  case (1 f ch)
  then show ?case by (cases ch) (auto simp: map_concat intro!: arg_cong[where f=concat])
qed

lemma recursiveUpdateNode_disabled:
  "(\<forall>n\<in>set (nodes r). req_id (fieldsOf n) = reqId \<longrightarrow> truthyBool (isDisabled (fieldsOf n))) \<Longrightarrow>
   recursiveUpdateNode reqId updates r = r"
proof (induction reqId updates r rule: recursiveUpdateNode.induct)
  case (1 reqId updates f ch)
  then show ?case by (cases ch) (auto simp: map_idI)
qed

section \<open>The evaluator, branch by branch\<close>

lemma xorWinner_None: "xorWinner f s = None \<longleftrightarrow> (\<forall>x\<in>set s. \<not> isXorWinner f x)"
  by (auto simp add: xorWinner_def find_None_iff)

lemma lostXor_iff:
  "lostXor r s \<longleftrightarrow>
     truthyString (xorGroup (fieldsOf r)) \<and> (\<exists>x\<in>set s. isXorWinner (fieldsOf r) x)"
  using xorWinner_None[of "fieldsOf r" s] by (auto simp: lostXor_def)

lemma evaluateRequirement_lost:
  "lostXor (Requirement f ch) s \<Longrightarrow>
   evaluateRequirement (Requirement f ch) s =
     Requirement (f\<lparr>isDisabled := Some True, isFulfilled := False\<rparr>) ch"
  by (simp add: lostXor_def)

lemma evaluateRequirement_not_lost:
  "\<not> lostXor (Requirement f ch) s \<Longrightarrow>
   evaluateRequirement (Requirement f ch) s =
     (let f1 = (if truthyString (xorGroup f) then f\<lparr>isDisabled := Some False\<rparr> else f)
      in case req_type f1 of
             BOOLEAN \<Rightarrow> Requirement f1 ch
           | NUMERIC \<Rightarrow> Requirement (evaluateNumeric f1) ch
           | GROUP \<Rightarrow>
               (case ch of
                  None \<Rightarrow> Requirement (f1\<lparr>isFulfilled := True\<rparr>) ch
                | Some [] \<Rightarrow> Requirement (f1\<lparr>isFulfilled := True\<rparr>) ch
                | Some (c # cs) \<Rightarrow>
                    let ch' = evaluateSiblings [] (c # cs)
                    in Requirement (f1\<lparr>isFulfilled := groupFulfilled ch'\<rparr>) (Some ch')))"
  by (auto simp: lostXor_def)

lemma evaluateRequirement_keeps:
  "req_id (fieldsOf (evaluateRequirement r s)) = req_id (fieldsOf r)"
  "xorGroup (fieldsOf (evaluateRequirement r s)) = xorGroup (fieldsOf r)"
  "req_type (fieldsOf (evaluateRequirement r s)) = req_type (fieldsOf r)"
  "isOptional (fieldsOf (evaluateRequirement r s)) = isOptional (fieldsOf r)"
  by (cases r; cases "lostXor r s";
      simp add: evaluateRequirement_lost evaluateRequirement_not_lost Let_def evaluateNumeric_def
           del: evaluateRequirement.simps
           split: requirementType.splits option.splits list.splits)+

lemma fulfilled_not_lost:
  "isFulfilled (fieldsOf (evaluateRequirement r s)) \<Longrightarrow> \<not> lostXor r s"
  by (cases r; cases "lostXor r s") (simp_all add: evaluateRequirement_lost del: evaluateRequirement.simps)

lemma xorExclusive_snoc:
  assumes "xorExclusive done"
  shows "xorExclusive (done @ [evaluateRequirement r (done @ r # rest)])"
proof -
  let ?r' = "evaluateRequirement r (done @ r # rest)"
  have "\<not> xorClash d ?r' \<and> \<not> xorClash ?r' d" if d: "d \<in> set done" for d
  proof (cases "isFulfilled (fieldsOf ?r') \<and> truthyString (xorGroup (fieldsOf r))")
    case True
    then have "\<not> lostXor r (done @ r # rest)" using fulfilled_not_lost by blast
    with True have "\<not> isXorWinner (fieldsOf r) d"
      using d by (auto simp: lostXor_iff)
    then show ?thesis
      by (auto simp: xorClash_def isXorWinner_def evaluateRequirement_keeps)
  next
    case False
    then show ?thesis by (auto simp: xorClash_def evaluateRequirement_keeps)
  qed
  moreover have "\<not> xorClash ?r' ?r'" by (simp add: xorClash_def)
  ultimately show ?thesis using assms by (auto simp: xorExclusive_def)
qed

lemma xorExclusive_evaluateSiblings:
  "xorExclusive done \<Longrightarrow> xorExclusive (evaluateSiblings done todo)"
  by (induction todo arbitrary: "done") (simp_all add: xorExclusive_snoc)

lemma evaluateRequirement_group_cons:
  assumes "\<not> lostXor (Requirement f (Some (c # cs'))) allSiblings" and "req_type f = GROUP"
  shows "evaluateRequirement (Requirement f (Some (c # cs'))) allSiblings =
           Requirement
             ((if truthyString (xorGroup f) then f\<lparr>isDisabled := Some False\<rparr> else f)
                \<lparr>isFulfilled := groupFulfilled (evaluateSiblings [] (c # cs'))\<rparr>)
             (Some (evaluateSiblings [] (c # cs')))"
  apply (subst evaluateRequirement_not_lost[OF assms(1)])
  using assms(2)
  apply (simp add: Let_def del: evaluateRequirement.simps evaluateSiblings.simps)
  done

lemma evaluateRequirement_group_empty:
  assumes "\<not> lostXor (Requirement f ch) allSiblings" and "req_type f = GROUP"
    and "ch = None \<or> ch = Some []"
  shows "evaluateRequirement (Requirement f ch) allSiblings =
           Requirement
             ((if truthyString (xorGroup f) then f\<lparr>isDisabled := Some False\<rparr> else f)
                \<lparr>isFulfilled := True\<rparr>) ch"
  apply (subst evaluateRequirement_not_lost[OF assms(1)])
  using assms(2,3)
  apply (auto simp add: Let_def simp del: evaluateRequirement.simps evaluateSiblings.simps)
  done

lemma evaluateRequirement_boolean:
  assumes "\<not> lostXor (Requirement f ch) allSiblings" and "req_type f = BOOLEAN"
  shows "evaluateRequirement (Requirement f ch) allSiblings =
           Requirement (if truthyString (xorGroup f) then f\<lparr>isDisabled := Some False\<rparr> else f) ch"
  apply (subst evaluateRequirement_not_lost[OF assms(1)])
  using assms(2)
  apply (simp add: Let_def del: evaluateRequirement.simps evaluateSiblings.simps)
  done

lemma evaluateRequirement_numeric:
  assumes "\<not> lostXor (Requirement f ch) allSiblings" and "req_type f = NUMERIC"
  shows "evaluateRequirement (Requirement f ch) allSiblings =
           Requirement (evaluateNumeric (if truthyString (xorGroup f) then f\<lparr>isDisabled := Some False\<rparr> else f)) ch"
  apply (subst evaluateRequirement_not_lost[OF assms(1)])
  using assms(2)
  apply (simp add: Let_def del: evaluateRequirement.simps evaluateSiblings.simps)
  done

lemma xorExclusiveDeep_SomeI:
  "xorExclusive cs \<Longrightarrow> \<forall>c\<in>set cs. xorExclusiveDeep c \<Longrightarrow> xorExclusiveDeep (Requirement g (Some cs))"
  by simp

lemma xorExclusiveDeep_evaluate:
  "xorExclusiveDeep (evaluateRequirement r s)"
  "(\<forall>d\<in>set done. xorExclusiveDeep d) \<Longrightarrow> (\<forall>x\<in>set (evaluateSiblings done todo). xorExclusiveDeep x)"
proof (induction r s and "done" todo rule: evaluateRequirement_evaluateSiblings.induct)
  case (1 f ch allSiblings)
  show ?case
  proof (cases "lostXor (Requirement f ch) allSiblings")
    case True
    then have "truthyString (xorGroup f)" by (simp add: lostXor_def)
    then show ?thesis
      by (subst evaluateRequirement_lost[OF True]) (simp add: truthyBool_def split: option.splits)
  next
    case False
    then have nl: "\<not> (truthyString (xorGroup f) \<and> xorWinner f allSiblings \<noteq> None)"
      unfolding lostXor_def by simp
    show ?thesis
    proof (cases "req_type f")
      case BOOLEAN
      then show ?thesis
        by (subst evaluateRequirement_boolean[OF False BOOLEAN]) (simp split: option.splits)
    next
      case NUMERIC
      then show ?thesis
        by (subst evaluateRequirement_numeric[OF False NUMERIC])
           (simp add: evaluateNumeric_def Let_def split: option.splits)
    next
      case GROUP
      consider "ch = None \<or> ch = Some []" | c cs' where "ch = Some (c # cs')"
        by (cases ch; cases "the ch") auto
      then show ?thesis
      proof cases
        case 1
        show ?thesis
          by (subst evaluateRequirement_group_empty[OF False GROUP 1])
             (use 1 in \<open>auto simp: xorExclusive_def\<close>)
      next
        case 2
        have g: "req_type (if truthyString (xorGroup f) then f\<lparr>isDisabled := Some False\<rparr> else f) = GROUP"
          using GROUP by simp
        have e: "\<forall>d\<in>set []. xorExclusiveDeep d" by simp
        have ih: "\<forall>x\<in>set (evaluateSiblings [] (c # cs')). xorExclusiveDeep x"
          by (rule "1.IH"[OF nl refl g 2 refl e])
        have ex: "xorExclusive (evaluateSiblings [] (c # cs'))"
          by (rule xorExclusive_evaluateSiblings) (simp add: xorExclusive_def)
        have nl': "\<not> lostXor (Requirement f (Some (c # cs'))) allSiblings"
          using False unfolding 2 .
        show ?thesis unfolding 2
          by (subst evaluateRequirement_group_cons[OF nl' GROUP])
             (rule xorExclusiveDeep_SomeI[OF ex ih])
      qed
    qed
  qed
next
  case (2 "done")
  then show ?case by simp
next
  case (3 "done" r rest)
  have "\<forall>d\<in>set (done @ [evaluateRequirement r (done @ r # rest)]). xorExclusiveDeep d"
    using "3.IH"(1) "3.prems" by simp
  then have "\<forall>x\<in>set (evaluateSiblings (done @ [evaluateRequirement r (done @ r # rest)]) rest).
               xorExclusiveDeep x"
    by (rule "3.IH"(2))
  then show ?case by (simp only: evaluateSiblings.simps)
qed

section \<open>What a pass derives on the nodes it evaluates\<close>







section \<open>Idempotence where no XOR group is in play\<close>

text \<open>
  Without XOR labels a node is evaluated the same against any siblings, the sibling walk is
  a map, and a second pass changes nothing but \<^verbatim>\<open>updatedAt\<close>.
\<close>

lemma xorFree_node:
  "xorFree (Requirement f ch) \<longleftrightarrow>
     \<not> truthyString (xorGroup f) \<and> (\<forall>cs. ch = Some cs \<longrightarrow> (\<forall>c\<in>set cs. xorFree c))"
  by (cases ch) (auto simp: xorFree_def)

lemma xorFree_root: "xorFree r \<Longrightarrow> \<not> truthyString (xorGroup (fieldsOf r))"
  by (cases r) (simp add: xorFree_node)

lemma unlabelled_not_lost: "\<not> truthyString (xorGroup (fieldsOf r)) \<Longrightarrow> \<not> lostXor r s"
  by (simp add: lostXor_def)

lemma unlabelled_any_siblings:
  "\<not> truthyString (xorGroup (fieldsOf r)) \<Longrightarrow> evaluateRequirement r s = evaluateRequirement r []"
  by (cases r) simp

lemma unlabelled_walk:
  "\<forall>r\<in>set todo. \<not> truthyString (xorGroup (fieldsOf r)) \<Longrightarrow>
   evaluateSiblings done todo = done @ map (\<lambda>r. evaluateRequirement r []) todo"
proof (induction todo arbitrary: "done")
  case Nil
  then show ?case by simp
next
  case (Cons r rest)
  have "evaluateRequirement r (done @ r # rest) = evaluateRequirement r []"
    using Cons.prems by (intro unlabelled_any_siblings) simp
  then show ?case using Cons by simp
qed

lemma evaluateNumeric_twice:
  "\<not> truthyString (xorGroup f) \<Longrightarrow> evaluateNumeric (evaluateNumeric f) = evaluateNumeric f"
  by (simp add: evaluateNumeric_def Let_def split: option.splits)

lemma evaluate_twice:
  "xorFree r \<Longrightarrow> evaluateRequirement (evaluateRequirement r []) [] = evaluateRequirement r []"
proof (induction r)
  case (Requirement f ch)
  from Requirement.prems have u: "\<not> truthyString (xorGroup f)"
    and kids: "\<And>cs c. ch = Some cs \<Longrightarrow> c \<in> set cs \<Longrightarrow> xorFree c"
    by (auto simp: xorFree_node)
  have nl: "\<not> lostXor (Requirement g ch') s" if "xorGroup g = xorGroup f" for g ch' s
    using u that by (simp add: lostXor_def)
  show ?case
  proof (cases "req_type f")
    case BOOLEAN
    show ?thesis using u BOOLEAN
      by (simp add: evaluateRequirement_boolean[OF nl] del: evaluateRequirement.simps)
  next
    case NUMERIC
    have t: "req_type (evaluateNumeric f) = NUMERIC" "xorGroup (evaluateNumeric f) = xorGroup f"
      using NUMERIC by (simp_all add: evaluateNumeric_def Let_def split: option.splits)
    show ?thesis using u NUMERIC t
      by (simp add: evaluateRequirement_numeric[OF nl] evaluateNumeric_twice
               del: evaluateRequirement.simps)
  next
    case GROUP
    consider "ch = None \<or> ch = Some []" | c cs' where "ch = Some (c # cs')"
      by (cases ch; cases "the ch") auto
    then show ?thesis
    proof cases
      case 1
      show ?thesis using u GROUP 1
        by (simp add: evaluateRequirement_group_empty[OF nl] del: evaluateRequirement.simps)
    next
      case 2
      let ?E = "\<lambda>r. evaluateRequirement r []"
      have free: "\<forall>x\<in>set (c # cs'). \<not> truthyString (xorGroup (fieldsOf x))"
        using kids[OF 2] xorFree_root by blast
      have w1: "evaluateSiblings [] (c # cs') = map ?E (c # cs')"
        using unlabelled_walk[OF free, of "[]"] by simp
      have free': "\<forall>x\<in>set (map ?E (c # cs')). \<not> truthyString (xorGroup (fieldsOf x))"
        using free by (simp add: evaluateRequirement_keeps del: evaluateRequirement.simps)
      have w2: "evaluateSiblings [] (map ?E (c # cs')) = map ?E (map ?E (c # cs'))"
        using unlabelled_walk[OF free', of "[]"] by simp
      have idem: "map ?E (map ?E (c # cs')) = map ?E (c # cs')"
        using Requirement.IH kids[OF 2] 2 by (auto simp del: evaluateRequirement.simps)
      have ne: "map ?E (c # cs') = ?E c # map ?E cs'" by simp
      show ?thesis unfolding 2
        apply (subst evaluateRequirement_group_cons[OF nl GROUP], simp)
        apply (subst evaluateRequirement_group_cons[OF nl GROUP], simp)
        apply (simp only: w1 ne)
        apply (subst evaluateRequirement_group_cons[OF nl], simp, (simp add: GROUP u))
        apply (fold ne)
        apply (simp only: w2 idem)
        apply (simp add: u)
        done
    qed
  qed
qed


lemma idempotent_without_xor:
  assumes "\<forall>r\<in>set (requirements t). xorFree r"
  shows "(evaluateTaskState later (evaluateTaskState now t))\<lparr>updatedAt := u\<rparr> =
         (evaluateTaskState now t)\<lparr>updatedAt := u\<rparr>"
proof -
  let ?E = "\<lambda>r. evaluateRequirement r []"
  have free: "\<forall>r\<in>set (requirements t). \<not> truthyString (xorGroup (fieldsOf r))"
    using assms xorFree_root by blast
  have w1: "evaluateSiblings [] (requirements t) = map ?E (requirements t)"
    using unlabelled_walk[OF free, of "[]"] by simp
  have free': "\<forall>r\<in>set (map ?E (requirements t)). \<not> truthyString (xorGroup (fieldsOf r))"
    using free by (simp add: evaluateRequirement_keeps)
  have "map ?E (map ?E (requirements t)) = map ?E (requirements t)"
    using assms evaluate_twice by simp
  then have w2: "evaluateSiblings [] (map ?E (requirements t)) = map ?E (requirements t)"
    using unlabelled_walk[OF free', of "[]"] by simp
  define fin where "fin =
    list_all (\<lambda>r. isFulfilled (fieldsOf r))
      (filter (\<lambda>r. \<not> truthyBool (isOptional (fieldsOf r))) (map ?E (requirements t)))"
  have tl: "timeLimitReached (t'\<lparr>updatedAt := x\<rparr>) = timeLimitReached t'"
           "timeLimitReached (t'\<lparr>requirements := y\<rparr>) = timeLimitReached t'"
           "timeLimitReached (t'\<lparr>status := z\<rparr>) = timeLimitReached t'" for t' x y z
    by (simp_all add: timeLimitReached_def split: option.splits)
  consider (idle) "status t = IDLE \<or> status t = LOCKED"
    | (failed) "status t = RUNNING" "timeLimitReached t"
    | (completed) "status t = RUNNING" "\<not> timeLimitReached t" "fin"
    | (running) "status t = RUNNING" "\<not> timeLimitReached t" "\<not> fin"
    | (other) "status t \<noteq> IDLE" "status t \<noteq> LOCKED" "status t \<noteq> RUNNING"
    by blast
  then show ?thesis
  proof cases
    case idle
    then have "evaluateTaskState now t = t"
      by (auto simp: evaluateTaskState_def cloneTask_def Let_def)
    moreover from idle have "evaluateTaskState later t = t"
      by (auto simp: evaluateTaskState_def cloneTask_def Let_def)
    ultimately show ?thesis by simp
  next
    case failed
    then have 1: "evaluateTaskState now t =
        t\<lparr>status := FAILED, requirements := map ?E (requirements t), updatedAt := now\<rparr>"
      by (simp add: evaluateTaskState_def cloneTask_def Let_def w1)
    show ?thesis unfolding 1
      by (simp add: evaluateTaskState_def cloneTask_def Let_def w2 tl)
  next
    case completed
    then have 1: "evaluateTaskState now t =
        t\<lparr>requirements := map ?E (requirements t), status := COMPLETED, updatedAt := now\<rparr>"
      by (simp add: evaluateTaskState_def cloneTask_def Let_def w1 fin_def)
    show ?thesis unfolding 1
      by (simp add: evaluateTaskState_def cloneTask_def Let_def w2 tl)
  next
    case running
    then have 1: "evaluateTaskState now t =
        t\<lparr>requirements := map ?E (requirements t), updatedAt := now\<rparr>"
      by (simp add: evaluateTaskState_def cloneTask_def Let_def w1 fin_def)
    show ?thesis unfolding 1 using running
      by (simp add: evaluateTaskState_def cloneTask_def Let_def w2 tl fin_def)
  next
    case other
    then have 1: "evaluateTaskState now t =
        t\<lparr>requirements := map ?E (requirements t), updatedAt := now\<rparr>"
      by (simp add: evaluateTaskState_def cloneTask_def Let_def w1)
    show ?thesis unfolding 1 using other
      by (simp add: evaluateTaskState_def cloneTask_def Let_def w2 tl)
  qed
qed

lemmas sample_defs =
  newFields_def newTask_def runDone_def swimOpen_def swimLocked_def coolDown_def
  overCounter_def pushups_def cardioGroup_def workout_def timedOutTask_def unboundedTask_def
  toggleFulfilled_def bikeDone_def rowDone_def gymGroup_def staleChild_def staleGroup_def
  laps_def backUnderLimit_def lapsStart_def incrementToOne_def unlabelledA_def unlabelledB_def
  runAgain_def runStale_def

lemmas engine_defs =
  evaluateTaskState_def cloneTask_def timeLimitReached_def truthyString_def truthyBool_def
  nullish_def isXorWinner_def xorWinner_def evaluateNumeric_def groupFulfilled_def lostXor_def
  overLimit_def

section \<open>Properties of the engine\<close>

text \<open>
  C10. In status IDLE or LOCKED \<^verbatim>\<open>evaluateTaskState\<close> returns its input in every field: the
  requirement tree is not evaluated, \<^verbatim>\<open>updatedAt\<close> is not stamped, and the status stays what
  it was (the time-limit transition fires from RUNNING only), whatever \<^verbatim>\<open>timeLimit\<close> and
  \<^verbatim>\<open>elapsedTime\<close> are.
\<close>

theorem idle_locked_identity:
  "status t = IDLE \<or> status t = LOCKED \<Longrightarrow> evaluateTaskState now t = t"
  by (auto simp add: evaluateTaskState_def cloneTask_def Let_def)

theorem idle_locked_identity_witness:
  "status (timedOutTask IDLE) = IDLE \<and> timeLimit (timedOutTask IDLE) = Some 60 \<and>
   elapsedTime (timedOutTask IDLE) = 61 \<and>
   evaluateTaskState 5 (timedOutTask IDLE) = timedOutTask IDLE \<and>
   status (evaluateTaskState 5 (timedOutTask LOCKED)) = LOCKED"
  using idle_locked_identity[of "timedOutTask IDLE" 5] idle_locked_identity[of "timedOutTask LOCKED" 5]
  by (simp add: timedOutTask_def newTask_def)

text \<open>
  C7. A RUNNING task whose \<^verbatim>\<open>timeLimit\<close> is set and not zero, with
  \<^verbatim>\<open>elapsedTime >= timeLimit\<close>, evaluates to FAILED, whatever its requirements are (the
  completion check tests for RUNNING and so cannot undo the failure). A task whose
  \<^verbatim>\<open>timeLimit\<close> is absent or zero and that is not FAILED does not become FAILED.
\<close>

theorem time_limit_failure:
  "(status t = RUNNING \<and> timeLimit t = Some l \<and> l \<noteq> 0 \<and> elapsedTime t \<ge> l
      \<longrightarrow> status (evaluateTaskState now t) = FAILED) \<and>
   ((timeLimit t = None \<or> timeLimit t = Some 0) \<and> status t \<noteq> FAILED
      \<longrightarrow> status (evaluateTaskState now t) \<noteq> FAILED)"
  by (auto simp add: evaluateTaskState_def cloneTask_def Let_def timeLimitReached_def
           split: option.splits)

theorem time_limit_failure_witness:
  "status (timedOutTask RUNNING) = RUNNING \<and> timeLimit (timedOutTask RUNNING) = Some 60 \<and>
   elapsedTime (timedOutTask RUNNING) = 61 \<and>
   list_all (\<lambda>r. isFulfilled (fieldsOf r)) (requirements (timedOutTask RUNNING)) \<and>
   list_all (\<lambda>r. isFulfilled (fieldsOf r)) (requirements (evaluateTaskState 5 (timedOutTask RUNNING))) \<and>
   status (evaluateTaskState 5 (timedOutTask RUNNING)) = FAILED \<and>
   timeLimit unboundedTask = Some 0 \<and> status unboundedTask = RUNNING \<and>
   status (evaluateTaskState 5 unboundedTask) = RUNNING"
  using time_limit_failure[of "timedOutTask RUNNING" 60 5] time_limit_failure[of unboundedTask 0 5]
  by (simp add: sample_defs engine_defs)

text \<open>
  C4. A NUMERIC requirement that does not lose XOR resolution: with \<open>current\<close> the
  \<^verbatim>\<open>currentValue\<close> defaulting to 0 and \<open>target\<close> the \<^verbatim>\<open>targetValue\<close> defaulting to 1,
  when \<^verbatim>\<open>valueLimit\<close> is defined and \<open>current\<close> exceeds it the node comes out unfulfilled and
  disabled, whatever the target; otherwise \<^verbatim>\<open>isFulfilled\<close> is \<open>current \<ge> target\<close>.
\<close>

theorem numeric_evaluation:
  assumes "req_type (fieldsOf r) = NUMERIC" and "\<not> lostXor r allSiblings"
  shows "if overLimit (fieldsOf r)
         then \<not> isFulfilled (fieldsOf (evaluateRequirement r allSiblings)) \<and>
              isDisabled (fieldsOf (evaluateRequirement r allSiblings)) = Some True
         else isFulfilled (fieldsOf (evaluateRequirement r allSiblings)) =
                (nullish (currentValue (fieldsOf r)) 0 \<ge> nullish (targetValue (fieldsOf r)) 1)"
  using assms
  by (cases r) (auto simp: lostXor_def evaluateNumeric_def overLimit_def Let_def split: option.splits)

theorem numeric_evaluation_witness:
  "req_type (fieldsOf overCounter) = NUMERIC \<and> \<not> lostXor overCounter [overCounter] \<and>
   overLimit (fieldsOf overCounter) \<and>
   \<not> isFulfilled (fieldsOf (evaluateRequirement overCounter [overCounter])) \<and>
   isDisabled (fieldsOf (evaluateRequirement overCounter [overCounter])) = Some True \<and>
   \<not> overLimit (fieldsOf pushups) \<and>
   isFulfilled (fieldsOf (evaluateRequirement pushups [pushups]))"
  using numeric_evaluation[of overCounter "[overCounter]"] numeric_evaluation[of pushups "[pushups]"]
  by (simp add: sample_defs engine_defs)

text \<open>
  C6. A GROUP requirement that does not lose XOR resolution: its children are evaluated by
  the sibling walk over its own \<^verbatim>\<open>children\<close> array (the child at position \<open>i\<close> against the
  array holding the results before \<open>i\<close> and the inputs from \<open>i\<close> on), and then the group is
  fulfilled iff every child not marked optional is fulfilled. That holds vacuously with no
  such child, and a disabled child is not left out: disabled and unfulfilled, it blocks the
  group.
\<close>

theorem group_evaluation:
  assumes "req_type (fieldsOf r) = GROUP" and "\<not> lostXor r allSiblings"
  shows "children (evaluateRequirement r allSiblings) = map_option (evaluateSiblings []) (children r) \<and>
         (\<forall>cs i. children r = Some cs \<and> i < length cs \<longrightarrow>
            evaluateSiblings [] cs ! i =
              evaluateRequirement (cs ! i) (take i (evaluateSiblings [] cs) @ drop i cs)) \<and>
         (isFulfilled (fieldsOf (evaluateRequirement r allSiblings)) \<longleftrightarrow>
            (\<forall>c\<in>set (nullish (children (evaluateRequirement r allSiblings)) []).
               \<not> truthyBool (isOptional (fieldsOf c)) \<longrightarrow> isFulfilled (fieldsOf c)))"
proof (intro conjI allI impI)
  show "children (evaluateRequirement r allSiblings) = map_option (evaluateSiblings []) (children r)"
    using assms
    by (cases r) (auto simp: lostXor_def Let_def split: option.splits list.splits)
next
  fix cs i assume "children r = Some cs \<and> i < length cs"
  then show "evaluateSiblings [] cs ! i =
              evaluateRequirement (cs ! i) (take i (evaluateSiblings [] cs) @ drop i cs)"
    using evaluateSiblings_nth[of i cs "[]"] by simp
next
  show "isFulfilled (fieldsOf (evaluateRequirement r allSiblings)) \<longleftrightarrow>
            (\<forall>c\<in>set (nullish (children (evaluateRequirement r allSiblings)) []).
               \<not> truthyBool (isOptional (fieldsOf c)) \<longrightarrow> isFulfilled (fieldsOf c))"
    using assms
    by (cases r) (auto simp: lostXor_def Let_def groupFulfilled_iff nullish_def
                       split: option.splits list.splits)
qed

theorem group_evaluation_witness:
  "req_type (fieldsOf cardioGroup) = GROUP \<and> \<not> lostXor cardioGroup [cardioGroup] \<and>
   children (evaluateRequirement cardioGroup [cardioGroup]) =
     Some [Requirement ((fieldsOf runDone)\<lparr>isDisabled := Some False\<rparr>) None,
           Requirement ((fieldsOf swimOpen)\<lparr>isDisabled := Some True\<rparr>) None,
           coolDown] \<and>
   \<not> isFulfilled (fieldsOf (evaluateRequirement cardioGroup [cardioGroup])) \<and>
   isFulfilled (fieldsOf (evaluateRequirement (Requirement (newFields ''g'' GROUP) (Some [coolDown])) [])) \<and>
   isFulfilled (fieldsOf (evaluateRequirement (Requirement (newFields ''g'' GROUP) (Some [])) [])) \<and>
   isFulfilled (fieldsOf (evaluateRequirement (Requirement (newFields ''g'' GROUP) None) []))"
proof -
  have a: "req_type (fieldsOf cardioGroup) = GROUP"
    by (simp add: cardioGroup_def newFields_def)
  have b: "\<not> lostXor cardioGroup [cardioGroup]"
    by (simp add: cardioGroup_def newFields_def lostXor_def truthyString_def)
  have c: "children (evaluateRequirement cardioGroup [cardioGroup]) =
             map_option (evaluateSiblings []) (children cardioGroup)"
    using group_evaluation[OF a b] by (rule conjunct1)
  have d: "map_option (evaluateSiblings []) (children cardioGroup) =
     Some [Requirement ((fieldsOf runDone)\<lparr>isDisabled := Some False\<rparr>) None,
           Requirement ((fieldsOf swimOpen)\<lparr>isDisabled := Some True\<rparr>) None,
           coolDown]"
    by (simp add: sample_defs engine_defs)
  show ?thesis
    using a b c d by (simp add: sample_defs engine_defs)
qed

text \<open>
  C8. \<^verbatim>\<open>resetTask\<close>, from any status and at any depth of nesting: the status is IDLE,
  \<^verbatim>\<open>elapsedTime\<close> is 0, \<^verbatim>\<open>updatedAt\<close> is the time of the call, and every node of the tree
  is unfulfilled and not disabled, with \<^verbatim>\<open>currentValue\<close> 0 on a NUMERIC node and absent on
  any other; ids and types stay in place. \<^verbatim>\<open>resetTask\<close> does not call the evaluator, and
  calling it afterwards would change nothing.
\<close>

theorem reset_completeness:
  "status (resetTask now t) = IDLE \<and> elapsedTime (resetTask now t) = 0 \<and>
   updatedAt (resetTask now t) = now \<and>
   (\<forall>n\<in>set (allNodes (requirements (resetTask now t))).
      \<not> isFulfilled (fieldsOf n) \<and> isDisabled (fieldsOf n) = Some False \<and>
      currentValue (fieldsOf n) = (if req_type (fieldsOf n) = NUMERIC then Some 0 else None)) \<and>
   map (\<lambda>n. (req_id (fieldsOf n), req_type (fieldsOf n))) (allNodes (requirements (resetTask now t))) =
     map (\<lambda>n. (req_id (fieldsOf n), req_type (fieldsOf n))) (allNodes (requirements t)) \<and>
   evaluateTaskState later (resetTask now t) = resetTask now t"
proof -
  have shape: "map (\<lambda>n. (req_id (fieldsOf n), req_type (fieldsOf n))) (allNodes (recursiveReset rs)) =
               map (\<lambda>n. (req_id (fieldsOf n), req_type (fieldsOf n))) (allNodes rs)" for rs
    by (induction rs) (simp_all add: allNodes_def recursiveReset_def recursiveResetNode_shape)
  have cleared: "\<not> isFulfilled (fieldsOf n) \<and> isDisabled (fieldsOf n) = Some False \<and>
      currentValue (fieldsOf n) = (if req_type (fieldsOf n) = NUMERIC then Some 0 else None)"
    if "n \<in> set (allNodes (recursiveReset rs))" for n rs
  proof -
    from that obtain r where "r \<in> set rs" "n \<in> set (nodes (recursiveResetNode r))"
      by (auto simp: allNodes_def recursiveReset_def)
    then show ?thesis using recursiveResetNode_nodes by blast
  qed
  have idle: "evaluateTaskState later (resetTask now t) = resetTask now t"
    by (simp add: evaluateTaskState_def cloneTask_def resetTask_def Let_def)
  show ?thesis
    using shape[of "requirements t"] cleared[of _ "requirements t"] idle
    by (simp add: resetTask_def)
qed

theorem reset_completeness_witness:
  "status (resetTask 9 (newTask COMPLETED [workout])) = IDLE \<and>
   map (\<lambda>n. (req_id (fieldsOf n), isFulfilled (fieldsOf n), isDisabled (fieldsOf n),
              currentValue (fieldsOf n)))
       (allNodes (requirements (resetTask 9 (newTask COMPLETED [workout])))) =
     [(''core'', False, Some False, None), (''c1'', False, Some False, Some 0),
      (''inner'', False, Some False, None), (''run'', False, Some False, None),
      (''swim'', False, Some False, None)]"
  using reset_completeness[of 9 "newTask COMPLETED [workout]" 10]
  by (simp add: sample_defs resetTask_def recursiveReset_def allNodes_def)

text \<open>
  C9. In status RUNNING or PAUSED, a partial update aimed at a requirement that is disabled
  before the update is not applied: \<^verbatim>\<open>recursiveUpdate\<close> hands the node back as it was, so
  when every node carrying the target id is disabled the whole operation is the evaluation
  pass on the original tree.
\<close>

theorem disabled_write_rejected:
  "(req_id (fieldsOf r) = reqId \<and> truthyBool (isDisabled (fieldsOf r))
      \<longrightarrow> recursiveUpdateNode reqId updates r = r) \<and>
   ((status t = RUNNING \<or> status t = PAUSED) \<and>
    (\<forall>n\<in>set (allNodes (requirements t)).
        req_id (fieldsOf n) = reqId \<longrightarrow> truthyBool (isDisabled (fieldsOf n)))
      \<longrightarrow> recursiveUpdate reqId updates (requirements t) = requirements t \<and>
          updateRequirementValue now t reqId updates = evaluateTaskState now t)"
proof (intro conjI impI)
  assume "req_id (fieldsOf r) = reqId \<and> truthyBool (isDisabled (fieldsOf r))"
  then show "recursiveUpdateNode reqId updates r = r" by (cases r) simp
next
  assume h: "(status t = RUNNING \<or> status t = PAUSED) \<and>
    (\<forall>n\<in>set (allNodes (requirements t)).
        req_id (fieldsOf n) = reqId \<longrightarrow> truthyBool (isDisabled (fieldsOf n)))"
  then have "\<forall>r\<in>set (requirements t). recursiveUpdateNode reqId updates r = r"
    by (auto simp: allNodes_def intro!: recursiveUpdateNode_disabled)
  then show same: "recursiveUpdate reqId updates (requirements t) = requirements t"
    by (simp add: recursiveUpdate_def map_idI)
  show "updateRequirementValue now t reqId updates = evaluateTaskState now t"
    using h by (auto simp: updateRequirementValue_def cloneTask_def same)
qed

theorem disabled_write_rejected_witness:
  "status (newTask RUNNING [runDone, swimLocked]) = RUNNING \<and>
   truthyBool (isDisabled (fieldsOf swimLocked)) \<and>
   upd_isFulfilled toggleFulfilled = Some True \<and>
   recursiveUpdateNode ''swim'' toggleFulfilled swimLocked = swimLocked \<and>
   updateRequirementValue 5 (newTask RUNNING [runDone, swimLocked]) ''swim'' toggleFulfilled =
     evaluateTaskState 5 (newTask RUNNING [runDone, swimLocked])"
proof -
  have a: "req_id (fieldsOf swimLocked) = ''swim'' \<and> truthyBool (isDisabled (fieldsOf swimLocked))"
    by (simp add: sample_defs truthyBool_def)
  have b: "(status (newTask RUNNING [runDone, swimLocked]) = RUNNING \<or>
            status (newTask RUNNING [runDone, swimLocked]) = PAUSED) \<and>
           (\<forall>n\<in>set (allNodes (requirements (newTask RUNNING [runDone, swimLocked]))).
              req_id (fieldsOf n) = ''swim'' \<longrightarrow> truthyBool (isDisabled (fieldsOf n)))"
    by (simp add: sample_defs truthyBool_def allNodes_def)
  note inst = disabled_write_rejected[of swimLocked "''swim''" toggleFulfilled
               "newTask RUNNING [runDone, swimLocked]" 5]
  from inst a have c: "recursiveUpdateNode ''swim'' toggleFulfilled swimLocked = swimLocked"
    by blast
  from inst b have d:
    "updateRequirementValue 5 (newTask RUNNING [runDone, swimLocked]) ''swim'' toggleFulfilled =
     evaluateTaskState 5 (newTask RUNNING [runDone, swimLocked])"
    by blast
  show ?thesis using a c d by (simp add: sample_defs)
qed

text \<open>
  C1 (idempotence of the evaluator) fails on the code. A RUNNING task with the BOOLEAN option
  \<open>swim\<close> followed by the NUMERIC option \<open>laps\<close> of the same XOR group, \<open>laps\<close> at its
  target: the first pass evaluates \<open>swim\<close> while \<open>laps\<close> is still marked unfulfilled and
  leaves it enabled, then fulfils \<open>laps\<close>; the second pass finds \<open>laps\<close> fulfilled and
  disables \<open>swim\<close>. The two results differ in more than \<^verbatim>\<open>updatedAt\<close>. (On a tree
  without XOR labels the evaluator is idempotent, see \<open>idempotent_without_xor\<close>.)
\<close>

theorem not_idempotent:
  "map (\<lambda>r. (req_id (fieldsOf r), isDisabled (fieldsOf r), isFulfilled (fieldsOf r)))
       (requirements (evaluateTaskState 5 (newTask RUNNING [swimOpen, laps]))) =
     [(''swim'', Some False, False), (''laps'', Some False, True)] \<and>
   map (\<lambda>r. (req_id (fieldsOf r), isDisabled (fieldsOf r), isFulfilled (fieldsOf r)))
       (requirements (evaluateTaskState 6 (evaluateTaskState 5 (newTask RUNNING [swimOpen, laps])))) =
     [(''swim'', Some True, False), (''laps'', Some False, True)] \<and>
   evaluateTaskState 6 (evaluateTaskState 5 (newTask RUNNING [swimOpen, laps])) \<noteq>
     (evaluateTaskState 5 (newTask RUNNING [swimOpen, laps]))\<lparr>updatedAt := 6\<rparr>"
  by (simp add: sample_defs engine_defs)

text \<open>
  The same state comes out of the engine's own operations: start the task, then raise
  \<open>laps\<close> from 0 to its target 1 with \<^verbatim>\<open>updateRequirementValue\<close>. The task that operation
  returns has been through \<^verbatim>\<open>evaluateTaskState\<close>, and one more pass changes it.
\<close>

lemma not_idempotent_reached:
  "updateRequirementValue 5 (startTask 4 (newTask IDLE [swimOpen, lapsStart])) ''laps'' incrementToOne =
     evaluateTaskState 5 ((newTask RUNNING [Requirement ((fieldsOf swimOpen)\<lparr>isDisabled := Some False\<rparr>) None,
                                           Requirement ((fieldsOf laps)\<lparr>isDisabled := Some False\<rparr>) None])\<lparr>updatedAt := 4\<rparr>) \<and>
   map (\<lambda>r. (req_id (fieldsOf r), isDisabled (fieldsOf r), isFulfilled (fieldsOf r)))
       (requirements (updateRequirementValue 5 (startTask 4 (newTask IDLE [swimOpen, lapsStart])) ''laps'' incrementToOne)) =
     [(''swim'', Some False, False), (''laps'', Some False, True)] \<and>
   map (\<lambda>r. (req_id (fieldsOf r), isDisabled (fieldsOf r), isFulfilled (fieldsOf r)))
       (requirements (evaluateTaskState 6 (updateRequirementValue 5 (startTask 4 (newTask IDLE [swimOpen, lapsStart])) ''laps'' incrementToOne))) =
     [(''swim'', Some True, False), (''laps'', Some False, True)]"
  by (simp add: sample_defs engine_defs updateRequirementValue_def startTask_def recursiveUpdate_def spreadUpdates_def)




text \<open>
  C3 as stated fails below the top level: the children of a GROUP that loses XOR resolution
  are not evaluated, so two of them with different ids and the same \<^verbatim>\<open>xorGroup\<close> stay
  fulfilled together.
\<close>

theorem xor_nested_counterexample:
  "status (newTask RUNNING [runDone, gymGroup]) \<noteq> IDLE \<and>
   status (newTask RUNNING [runDone, gymGroup]) \<noteq> LOCKED \<and>
   map children (requirements (evaluateTaskState 5 (newTask RUNNING [runDone, gymGroup]))) =
     [None, Some [bikeDone, rowDone]] \<and>
   req_id (fieldsOf bikeDone) \<noteq> req_id (fieldsOf rowDone) \<and>
   xorGroup (fieldsOf bikeDone) = Some ''legs'' \<and> xorGroup (fieldsOf rowDone) = Some ''legs'' \<and>
   isFulfilled (fieldsOf bikeDone) \<and> isFulfilled (fieldsOf rowDone)"
  by (simp add: sample_defs engine_defs)

text \<open>
  Two more ways for two fulfilled siblings of one \<^verbatim>\<open>xorGroup\<close> to survive a pass, at the top
  level: the label is the empty string, which \<^verbatim>\<open>if (req.xorGroup)\<close> takes as no label; or
  the two nodes carry the same id, which \<^verbatim>\<open>s.id !== req.id\<close> takes as one node.
\<close>

lemma xor_empty_label_example:
  "map (\<lambda>r. (req_id (fieldsOf r), xorGroup (fieldsOf r), isFulfilled (fieldsOf r)))
       (requirements (evaluateTaskState 5 (newTask RUNNING [unlabelledA, unlabelledB]))) =
     [(''a'', Some [], True), (''b'', Some [], True)]"
  by (simp add: sample_defs engine_defs)

lemma xor_same_id_example:
  "map (\<lambda>r. (req_id (fieldsOf r), xorGroup (fieldsOf r), isFulfilled (fieldsOf r)))
       (requirements (evaluateTaskState 5 (newTask RUNNING [runDone, runAgain]))) =
     [(''run'', Some ''cardio'', True), (''run'', Some ''cardio'', True)]"
  by (simp add: sample_defs engine_defs)

text \<open>
  C3, amended. For a task whose status is neither IDLE nor LOCKED, after
  \<^verbatim>\<open>evaluateTaskState\<close> no two top-level requirements with different ids and the same
  non-empty \<^verbatim>\<open>xorGroup\<close> are both fulfilled, and the same holds among the children of every
  GROUP the pass walks (reached through walked GROUPs and not itself disabled by XOR
  resolution).
\<close>

theorem xor_exclusive:
  assumes "status t \<noteq> IDLE" and "status t \<noteq> LOCKED"
  shows "xorExclusive (requirements (evaluateTaskState now t)) \<and>
         (\<forall>r\<in>set (requirements (evaluateTaskState now t)). xorExclusiveDeep r)"
proof -
  have "xorExclusive (evaluateSiblings [] (requirements t))"
    by (rule xorExclusive_evaluateSiblings) (simp add: xorExclusive_def)
  moreover have "\<forall>r\<in>set (evaluateSiblings [] (requirements t)). xorExclusiveDeep r"
    by (rule xorExclusiveDeep_evaluate(2)) simp
  ultimately show ?thesis using assms
    by (simp add: evaluateTaskState_def cloneTask_def Let_def)
qed

theorem xor_exclusive_witness:
  "status (newTask RUNNING [bikeDone, rowDone, cardioGroup]) = RUNNING \<and>
   map (\<lambda>r. (req_id (fieldsOf r), isDisabled (fieldsOf r), isFulfilled (fieldsOf r)))
       (allNodes (requirements (evaluateTaskState 5 (newTask RUNNING [bikeDone, rowDone, cardioGroup])))) =
     [(''bike'', Some True, False), (''row'', Some False, True), (''cardio'', None, False),
      (''run'', Some False, True), (''swim'', Some True, False), (''cool'', None, False)]"
proof -
  have a: "status (newTask RUNNING [bikeDone, rowDone, cardioGroup]) \<noteq> IDLE"
    and b: "status (newTask RUNNING [bikeDone, rowDone, cardioGroup]) \<noteq> LOCKED"
    by (simp_all add: newTask_def)
  from xor_exclusive[OF a b, of 5]
  have "xorExclusive (requirements (evaluateTaskState 5 (newTask RUNNING [bikeDone, rowDone, cardioGroup])))"
    by (rule conjunct1)
  then show ?thesis
    by (simp add: sample_defs engine_defs allNodes_def)
qed

text \<open>
  C5 (recovery from a limit breach) fails on the code for a NUMERIC node without
  \<^verbatim>\<open>xorGroup\<close>: the pass sets \<^verbatim>\<open>isDisabled\<close> to false only inside the XOR branch. The counter
  breached (6 over 5) and was disabled; with the value back at 3 the next pass leaves
  \<^verbatim>\<open>isDisabled\<close> true, and marks the node fulfilled as well. The same node with an
  \<^verbatim>\<open>xorGroup\<close> is cleared.
\<close>

theorem limit_breach_not_cleared:
  "isDisabled (fieldsOf (evaluateRequirement overCounter [overCounter])) = Some True \<and>
   fieldsOf backUnderLimit =
     (fieldsOf (evaluateRequirement overCounter [overCounter]))\<lparr>currentValue := Some 3\<rparr> \<and>
   \<not> overLimit (fieldsOf backUnderLimit) \<and> \<not> lostXor backUnderLimit [backUnderLimit] \<and>
   requirements (evaluateTaskState 6 (newTask RUNNING [backUnderLimit])) =
     [Requirement ((fieldsOf backUnderLimit)\<lparr>isFulfilled := True, isDisabled := Some True\<rparr>) None] \<and>
   isDisabled (fieldsOf (evaluateRequirement
       (Requirement ((fieldsOf backUnderLimit)\<lparr>xorGroup := Some ''g''\<rparr>) None) [])) = Some False"
  by (simp add: sample_defs engine_defs)

end
